theory Spec2Isabelle
  imports Main "HOL-Library.Sublist" "HOL-Library.Char_ord"
begin

section \<open>Password / identity relation analysis (pw\_analy\_7\_xjy.py)\<close>

text \<open>
  A shallow embedding of the relation detector of \<^verbatim>\<open>src/ex1_xjy/pw_analy_7_xjy.py\<close>:
  \<^verbatim>\<open>normalize_alnum\<close>, \<^verbatim>\<open>tokenize_name\<close>, \<^verbatim>\<open>LEET_MAP\<close>, \<^verbatim>\<open>deleet\<close>,
  \<^verbatim>\<open>detect_relations\<close> and the counting part of \<^verbatim>\<open>analyze_relations\<close>.

  A Python \<^verbatim>\<open>str\<close> is modelled as a \<^typ>\<open>string\<close> whose characters are the code points
  U+0000 .. U+00FF (one \<^typ>\<open>char\<close> per code point), so \<^const>\<open>length\<close> is Python's
  \<^verbatim>\<open>len\<close>. Code points above U+00FF are outside the model; among them only U+212A (KELVIN
  SIGN) and U+0130 have a lower case with a character in \<^verbatim>\<open>[a-z0-9]\<close>, so a statement below
  that speaks of an empty normal form takes the normal form itself as its hypothesis, not
  the absence of \<^verbatim>\<open>[A-Za-z0-9]\<close>. A value that may be \<^verbatim>\<open>None\<close> is a
  \<^typ>\<open>string option\<close>. Python's unbounded integers are \<^typ>\<open>int\<close>. Exceptions are values of
  the type \<open>error\<close>.
\<close>

subsection \<open>Python string primitives\<close>

datatype error = IndexError | ZeroDivisionError | ValueError

text \<open>\<^verbatim>\<open>str.lower\<close> on the code points below 256: the letters \<^verbatim>\<open>A-Z\<close> and the Latin-1
  capitals U+00C0 .. U+00DE (without the multiplication sign U+00D7) move up by 32, which
  sets bit 5 of the code point; every other code point stays.\<close>

definition is_upper :: "char \<Rightarrow> bool" where
  "is_upper c =
     ((CHR ''A'' \<le> c \<and> c \<le> CHR ''Z'')
      \<or> (CHR 0xC0 \<le> c \<and> c \<le> CHR 0xDE \<and> c \<noteq> CHR 0xD7))"

fun set_bit5 :: "char \<Rightarrow> char" where
  "set_bit5 (Char b0 b1 b2 b3 b4 b5 b6 b7) = Char b0 b1 b2 b3 b4 True b6 b7"

definition lower_char :: "char \<Rightarrow> char" where
  "lower_char c = (if is_upper c then set_bit5 c else c)"

definition lower :: "string \<Rightarrow> string" where
  "lower s = map lower_char s"

text \<open>The character classes of the two regular expressions: \<^verbatim>\<open>[a-z0-9]\<close> and
  \<^verbatim>\<open>[A-Za-z0-9]\<close>.\<close>

definition is_lower_alnum :: "char \<Rightarrow> bool" where
  "is_lower_alnum c =
     ((CHR ''a'' \<le> c \<and> c \<le> CHR ''z'') \<or> (CHR ''0'' \<le> c \<and> c \<le> CHR ''9''))"

definition is_alnum :: "char \<Rightarrow> bool" where
  "is_alnum c =
     ((CHR ''A'' \<le> c \<and> c \<le> CHR ''Z'') \<or> (CHR ''a'' \<le> c \<and> c \<le> CHR ''z'')
      \<or> (CHR ''0'' \<le> c \<and> c \<le> CHR ''9''))"

text \<open>\<^verbatim>\<open>str.strip()\<close> removes leading and trailing white space; below 256 the white-space
  code points are 9 .. 13, 28 .. 32, 0x85 and 0xA0.\<close>

definition is_space :: "char \<Rightarrow> bool" where
  "is_space c =
     ((CHR 0x09 \<le> c \<and> c \<le> CHR 0x0D) \<or> (CHR 0x1C \<le> c \<and> c \<le> CHR 0x20)
      \<or> c = CHR 0x85 \<or> c = CHR 0xA0)"

definition strip :: "string \<Rightarrow> string" where
  "strip s = rev (dropWhile is_space (rev (dropWhile is_space s)))"

text \<open>\<^verbatim>\<open>re.split(r'[^A-Za-z0-9]+', s)\<close>: the pieces between the maximal runs of
  characters outside \<^verbatim>\<open>[A-Za-z0-9]\<close>, with an empty piece before a leading run and after a
  trailing one. \<open>cur\<close> is the piece being read and \<open>insep\<close> says that the previous
  character belonged to a separator run.\<close>

fun re_split_acc :: "string \<Rightarrow> bool \<Rightarrow> string \<Rightarrow> string list" where
  "re_split_acc cur insep [] = [cur]"
| "re_split_acc cur insep (c # cs) =
     (if is_alnum c then re_split_acc (cur @ [c]) False cs
      else if insep then re_split_acc cur True cs
      else cur # re_split_acc [] True cs)"

definition re_split_nonalnum :: "string \<Rightarrow> string list" where
  "re_split_nonalnum s = re_split_acc [] False s"

text \<open>\<^verbatim>\<open>s.split(sep)\<close> for a one-character separator, and the subscript \<^verbatim>\<open>[0]\<close>, which
  raises \<^verbatim>\<open>IndexError\<close> on an empty list.\<close>

fun split_acc :: "char \<Rightarrow> string \<Rightarrow> string \<Rightarrow> string list" where
  "split_acc sep cur [] = [cur]"
| "split_acc sep cur (c # cs) =
     (if c = sep then cur # split_acc sep [] cs else split_acc sep (cur @ [c]) cs)"

definition split :: "string \<Rightarrow> char \<Rightarrow> string list" where
  "split s sep = split_acc sep [] s"

definition index0 :: "'a list \<Rightarrow> error + 'a" where
  "index0 xs = (case xs of [] \<Rightarrow> Inl IndexError | x # _ \<Rightarrow> Inr x)"

text \<open>\<^verbatim>\<open>t in s\<close> on strings: \<open>t\<close> occurs in \<open>s\<close> as a contiguous substring (the empty
  string occurs in every string).\<close>

fun str_in :: "string \<Rightarrow> string \<Rightarrow> bool" where
  "str_in t [] = (t = [])"
| "str_in t (c # cs) = (prefix t (c # cs) \<or> str_in t cs)"

text \<open>\<^verbatim>\<open>x or ""\<close>: \<^verbatim>\<open>None\<close> and the empty string give the empty string.\<close>

definition or_empty :: "string option \<Rightarrow> string" where
  "or_empty v = (case v of None \<Rightarrow> [] | Some s \<Rightarrow> s)"

subsection \<open>normalize\_alnum, tokenize\_name, deleet\<close>

definition normalize_alnum :: "string option \<Rightarrow> string" where
  "normalize_alnum s =
     (case s of None \<Rightarrow> [] | Some t \<Rightarrow> filter is_lower_alnum (lower t))"

definition tokenize_name :: "string option \<Rightarrow> string list" where
  "tokenize_name s =
     (case s of
        None \<Rightarrow> []
      | Some t \<Rightarrow>
          if t = [] then []
          else (let t = strip t;
                    parts = re_split_nonalnum t;
                    tokens = map lower (filter (\<lambda>p. length p \<ge> 3) parts)
                in tokens))"

definition LEET_MAP :: "char \<rightharpoonup> char" where
  "LEET_MAP = map_of
     [(CHR ''4'', CHR ''a''), (CHR ''@'', CHR ''a''),
      (CHR ''0'', CHR ''o''),
      (CHR ''1'', CHR ''l''), (CHR ''!'', CHR ''i''),
      (CHR ''3'', CHR ''e''),
      (CHR ''$'', CHR ''s''), (CHR ''5'', CHR ''s''),
      (CHR ''7'', CHR ''t''), (CHR ''+'', CHR ''t''),
      (CHR ''2'', CHR ''z''),
      (CHR ''9'', CHR ''g''), (CHR ''6'', CHR ''g'')]"

definition leet_char :: "char \<Rightarrow> char" where
  "leet_char ch = (case LEET_MAP ch of Some v \<Rightarrow> v | None \<Rightarrow> ch)"

definition deleet :: "string option \<Rightarrow> string" where
  "deleet s =
     (case s of
        None \<Rightarrow> []
      | Some t \<Rightarrow> if t = [] then [] else lower (map leet_char t))"

subsection \<open>detect\_relations\<close>

text \<open>A record of the parser: the three fields the detector reads (the detector itself
  replaces \<^verbatim>\<open>None\<close> by the empty string). The flags dictionary maps a key to a boolean or
  to a list of matched tokens.\<close>

record cred =
  username :: "string option"
  email :: "string option"
  password :: "string option"

datatype pyval = VBool bool | VList "string list"

type_synonym flags = "string \<rightharpoonup> pyval"

text \<open>The two token loops: \<^verbatim>\<open>for t in tokens: if t and t in p: flag = True;
  matched.append(t)\<close>, with the flag and the list as the loop state.\<close>

fun token_loop :: "string \<Rightarrow> string list \<Rightarrow> bool \<times> string list \<Rightarrow> bool \<times> string list" where
  "token_loop p [] st = st"
| "token_loop p (t # ts) (flag, matched) =
     (if t \<noteq> [] \<and> str_in t p then token_loop p ts (True, matched @ [t])
      else token_loop p ts (flag, matched))"

definition email_local :: "string \<Rightarrow> error + string" where
  "email_local em =
     (if CHR ''@'' \<in> set em then index0 (split em (CHR ''@'')) else Inr [])"

definition detect_relations :: "cred \<Rightarrow> error + flags" where
  "detect_relations record =
     (let uname = or_empty (username record);
          em = or_empty (email record);
          pwd = or_empty (password record);
          u_norm = normalize_alnum (Some uname);
          e_norm = normalize_alnum (Some em);
          p_norm = normalize_alnum (Some pwd);
          results = Map.empty;
          results = results(''exact_username'' \<mapsto> VBool (u_norm \<noteq> [] \<and> p_norm = u_norm));
          results = results(''exact_email'' \<mapsto> VBool (e_norm \<noteq> [] \<and> p_norm = e_norm));
          results = results(''contains_username'' \<mapsto> VBool (u_norm \<noteq> [] \<and> str_in u_norm p_norm));
          results = results(''startswith_username'' \<mapsto> VBool (u_norm \<noteq> [] \<and> prefix u_norm p_norm));
          results = results(''endswith_username'' \<mapsto> VBool (u_norm \<noteq> [] \<and> suffix u_norm p_norm))
      in case email_local em of
           Inl e \<Rightarrow> Inl e
         | Inr local \<Rightarrow>
            (let local_norm = normalize_alnum (Some local);
                 results = results(''contains_localpart'' \<mapsto>
                              VBool (local_norm \<noteq> [] \<and> str_in local_norm p_norm));
                 tokens = tokenize_name (Some uname) @ tokenize_name (Some local);
                 (contains_token, matched_tokens) = token_loop p_norm tokens (False, []);
                 results = results(''contains_token'' \<mapsto> VBool contains_token);
                 results = results(''matched_tokens'' \<mapsto> VList matched_tokens);
                 rev_un = (if u_norm \<noteq> [] then rev u_norm else []);
                 results = results(''reversed_username'' \<mapsto>
                              VBool (rev_un \<noteq> [] \<and> str_in rev_un p_norm));
                 p_deleet = normalize_alnum (Some (deleet (Some pwd)));
                 results = results(''deleet_contains_username'' \<mapsto>
                              VBool (u_norm \<noteq> [] \<and> str_in u_norm p_deleet));
                 (deleet_contains_token, matched_deleet_tokens) =
                     token_loop p_deleet tokens (False, []);
                 results = results(''deleet_contains_token'' \<mapsto> VBool deleet_contains_token);
                 results = results(''matched_deleet_tokens'' \<mapsto> VList matched_deleet_tokens)
             in Inr results))"

subsection \<open>analyze\_relations\<close>

text \<open>A \<^verbatim>\<open>Counter\<close>: a dictionary from keys to integers whose lookup of a missing key
  gives 0.\<close>

type_synonym counter = "string \<rightharpoonup> int"

definition counter_get :: "counter \<Rightarrow> string \<Rightarrow> int" where
  "counter_get c k = (case c k of None \<Rightarrow> 0 | Some n \<Rightarrow> n)"

definition counter_inc :: "counter \<Rightarrow> string \<Rightarrow> counter" where
  "counter_inc c k = c(k \<mapsto> counter_get c k + 1)"

definition priority_keys :: "string list" where
  "priority_keys =
     [''exact_username'', ''exact_email'', ''contains_username'', ''contains_localpart'',
      ''contains_token'', ''deleet_contains_username'', ''deleet_contains_token'',
      ''reversed_username'']"

text \<open>The truth value of \<^verbatim>\<open>flags.get(k)\<close>: a missing key gives \<^verbatim>\<open>None\<close>, which is false,
  and a list is true when it is not empty.\<close>

definition truthy :: "pyval option \<Rightarrow> bool" where
  "truthy v =
     (case v of None \<Rightarrow> False | Some (VBool b) \<Rightarrow> b | Some (VList xs) \<Rightarrow> xs \<noteq> [])"

text \<open>The inner loop \<^verbatim>\<open>for k in priority_keys: if flags.get(k): primary = k;
  counts[k] += 1; break\<close>, started with \<^verbatim>\<open>primary = None\<close>.\<close>

fun select_primary :: "flags \<Rightarrow> string list \<Rightarrow> counter \<Rightarrow> string option \<times> counter" where
  "select_primary flags [] counts = (None, counts)"
| "select_primary flags (k # ks) counts =
     (if truthy (flags k) then (Some k, counter_inc counts k)
      else select_primary flags ks counts)"

type_synonym match = "cred \<times> string option \<times> flags"

text \<open>The body of the loop over the records, on the state \<^verbatim>\<open>(counts, matches)\<close>, and the
  loop itself; an exception of \<^verbatim>\<open>detect_relations\<close> ends the loop.\<close>

definition analyze_record :: "cred \<Rightarrow> counter \<times> match list \<Rightarrow> error + counter \<times> match list" where
  "analyze_record rec st =
     (case st of (counts, matches) \<Rightarrow>
        (case detect_relations rec of
           Inl e \<Rightarrow> Inl e
         | Inr flags \<Rightarrow>
            (let (primary, counts) = select_primary flags priority_keys counts;
                 counts = (if primary = None then counter_inc counts ''no_relation''
                           else counter_inc counts ''related'')
             in Inr (counts, matches @ [(rec, primary, flags)]))))"

fun analyze_loop :: "cred list \<Rightarrow> counter \<times> match list \<Rightarrow> error + counter \<times> match list" where
  "analyze_loop [] st = Inr st"
| "analyze_loop (rec # recs) st =
     (case analyze_record rec st of Inl e \<Rightarrow> Inl e | Inr st' \<Rightarrow> analyze_loop recs st')"

text \<open>The percentages are Python floats. The float arithmetic is kept abstract: \<open>fdiv\<close> is
  the true division of two integers with a divisor other than 0 and \<open>fmul\<close> the product of
  a float and an integer, over any type \<open>'f\<close> of floats. The true division by 0 raises
  \<^verbatim>\<open>ZeroDivisionError\<close>. A percentage is the integer 0 or a float.\<close>

datatype 'f pynum = PyInt int | PyFloat 'f

definition truediv :: "(int \<Rightarrow> int \<Rightarrow> 'f) \<Rightarrow> int \<Rightarrow> int \<Rightarrow> error + 'f" where
  "truediv fdiv a b = (if b = 0 then Inl ZeroDivisionError else Inr (fdiv a b))"

text \<open>\<^verbatim>\<open>cnt / total * 100 if total else 0\<close>, for \<^verbatim>\<open>cnt\<close> one of \<^verbatim>\<open>related\<close> and \<^verbatim>\<open>no_relation\<close>\<close>

definition percentage ::
  "(int \<Rightarrow> int \<Rightarrow> 'f) \<Rightarrow> ('f \<Rightarrow> int \<Rightarrow> 'f) \<Rightarrow> int \<Rightarrow> int \<Rightarrow> error + 'f pynum" where
  "percentage fdiv fmul cnt n_total =
     (if n_total \<noteq> 0
      then (case truediv fdiv cnt n_total of
              Inl e \<Rightarrow> Inl e
            | Inr q \<Rightarrow> Inr (PyFloat (fmul q 100)))
      else Inr (PyInt 0))"

text \<open>Lines 205 to 230 of \<^verbatim>\<open>analyze_relations\<close>: the loop over the records, then the two
  counts read from the counter and the two percentages. The result is the value of the
  local variables \<^verbatim>\<open>total\<close>, \<^verbatim>\<open>related\<close>, \<^verbatim>\<open>no_relation\<close>, \<^verbatim>\<open>related_pct\<close>,
  \<^verbatim>\<open>no_relation_pct\<close> and \<^verbatim>\<open>counts\<close> after line 230.\<close>

definition analyze_ratios ::
  "(int \<Rightarrow> int \<Rightarrow> 'f) \<Rightarrow> ('f \<Rightarrow> int \<Rightarrow> 'f) \<Rightarrow> cred list
     \<Rightarrow> error + int \<times> int \<times> int \<times> 'f pynum \<times> 'f pynum \<times> counter" where
  "analyze_ratios fdiv fmul records =
     (let n_total = int (length records)
      in case analyze_loop records (Map.empty, []) of
           Inl e \<Rightarrow> Inl e
         | Inr (counts, matches) \<Rightarrow>
            (let n_related = counter_get counts ''related'';
                 n_no_relation = counter_get counts ''no_relation''
             in case percentage fdiv fmul n_related n_total of
                  Inl e \<Rightarrow> Inl e
                | Inr r_pct \<Rightarrow>
                   (case percentage fdiv fmul n_no_relation n_total of
                      Inl e \<Rightarrow> Inl e
                    | Inr n_pct \<Rightarrow>
                       Inr (n_total, n_related, n_no_relation, r_pct, n_pct, counts))))"

text \<open>The chart of lines 281 to 289. matplotlib is a library outside the repository;
  modelled from the library: \<^verbatim>\<open>plt.pie(sizes, ...)\<close> raises \<^verbatim>\<open>ValueError\<close> when a size is
  negative and when the sizes add up to 0 (the wedge angles are then not numbers), and
  draws the chart otherwise.\<close>

definition plt_pie :: "int list \<Rightarrow> error + unit" where
  "plt_pie sizes =
     (if list_ex (\<lambda>x. x < 0) sizes \<or> sum_list sizes = 0 then Inl ValueError else Inr ())"

text \<open>The summary that is returned, without the three constant file paths. Between the
  percentages and the \<^verbatim>\<open>return\<close> the source builds \<^verbatim>\<open>detail\<close>, collects examples, writes the
  CSV file and the report, and draws the chart with \<^verbatim>\<open>sizes = [related, no_relation]\<close>. The
  examples and the two files are written from \<^verbatim>\<open>matches\<close> and the counts and change
  neither; the writes to the file system are taken to succeed and are not modelled. The
  chart is the last step that can raise before the summary is returned.\<close>

record 'f summary =
  total :: int
  related :: int
  no_relation :: int
  related_pct :: "'f pynum"
  no_relation_pct :: "'f pynum"
  detail :: "(string \<times> int) list"

definition analyze_relations ::
  "(int \<Rightarrow> int \<Rightarrow> 'f) \<Rightarrow> ('f \<Rightarrow> int \<Rightarrow> 'f) \<Rightarrow> cred list \<Rightarrow> error + 'f summary" where
  "analyze_relations fdiv fmul records =
     (case analyze_ratios fdiv fmul records of
        Inl e \<Rightarrow> Inl e
      | Inr (n_total, n_related, n_no_relation, r_pct, n_pct, counts) \<Rightarrow>
         (let n_detail = map (\<lambda>k. (k, counter_get counts k)) priority_keys;
              sizes = [n_related, n_no_relation]
          in case plt_pie sizes of
               Inl e \<Rightarrow> Inl e
             | Inr u \<Rightarrow>
                Inr \<lparr>total = n_total, related = n_related,
                     no_relation = n_no_relation,
                     related_pct = r_pct, no_relation_pct = n_pct,
                     detail = n_detail\<rparr>))"

text \<open>Two observations of the code above, used to state properties of one record:
  \<^verbatim>\<open>detect_relations(rec).get(k)\<close>, and the \<^verbatim>\<open>primary\<close> that one pass of the loop body
  stores in \<^verbatim>\<open>matches\<close> for the record.\<close>

definition flag_value :: "cred \<Rightarrow> string \<Rightarrow> error + pyval option" where
  "flag_value rec k =
     (case detect_relations rec of Inl e \<Rightarrow> Inl e | Inr flags \<Rightarrow> Inr (flags k))"

definition primary_relation :: "cred \<Rightarrow> error + string option" where
  "primary_relation rec =
     (case analyze_record rec (Map.empty, []) of
        Inl e \<Rightarrow> Inl e
      | Inr (counts, matches) \<Rightarrow> Inr (fst (snd (last matches))))"

section \<open>Properties\<close>

subsection \<open>Lower case and normalisation\<close>

lemma lower_char_idem: "lower_char (lower_char c) = lower_char c"
  by (cases c) (simp add: lower_char_def is_upper_def less_eq_char_def)

lemma lower_char_lower_alnum: "is_lower_alnum c \<Longrightarrow> lower_char c = c"
  by (auto simp add: lower_char_def is_upper_def is_lower_alnum_def less_eq_char_def)

lemma lower_fixed: "\<forall>c\<in>set s. is_lower_alnum c \<Longrightarrow> lower s = s"
  by (simp add: lower_def lower_char_lower_alnum map_idI)

lemma normalize_alnum_fixed: "normalize_alnum (Some (normalize_alnum s)) = normalize_alnum s"
proof (cases s)
  case None
  then show ?thesis by (simp add: normalize_alnum_def lower_def)
next
  case (Some t)
  let ?n = "filter is_lower_alnum (lower t)"
  have "lower ?n = ?n"
    by (rule lower_fixed) simp
  then show ?thesis
    using Some by (simp add: normalize_alnum_def)
qed

text \<open>Claim C8: \<^verbatim>\<open>normalize_alnum\<close> is idempotent, for every string and for \<^verbatim>\<open>None\<close>, and
  it ignores case and punctuation: \<^verbatim>\<open>"AbC!2"\<close> and \<^verbatim>\<open>"abc2"\<close> have the same normal form,
  which is \<^verbatim>\<open>"abc2"\<close>.\<close>

theorem normalize_alnum_idempotent:
  "normalize_alnum (Some (normalize_alnum s)) = normalize_alnum s
   \<and> normalize_alnum (Some ''AbC!2'') = normalize_alnum (Some ''abc2'')
   \<and> normalize_alnum (Some ''abc2'') = ''abc2''"
proof -
  have "normalize_alnum (Some ''AbC!2'') = ''abc2''"
    by (simp add: normalize_alnum_def lower_def lower_char_def is_upper_def
        is_lower_alnum_def less_eq_char_def)
  moreover have "normalize_alnum (Some ''abc2'') = ''abc2''"
    by (simp add: normalize_alnum_def lower_def lower_char_def is_upper_def
        is_lower_alnum_def less_eq_char_def)
  ultimately show ?thesis
    by (simp add: normalize_alnum_fixed)
qed

subsection \<open>The substitution table\<close>

lemma LEET_MAP_Some:
  "LEET_MAP c = Some v \<Longrightarrow> c \<le> CHR ''@'' \<and> CHR ''a'' \<le> v \<and> v \<le> CHR ''z''"
  by (auto simp add: LEET_MAP_def less_eq_char_def split: if_splits)

lemma LEET_MAP_above: "CHR ''A'' \<le> c \<Longrightarrow> LEET_MAP c = None"
proof (cases "LEET_MAP c")
  case None
  then show ?thesis .
next
  case (Some v)
  assume "CHR ''A'' \<le> c"
  moreover from Some have "c \<le> CHR ''@''" by (simp add: LEET_MAP_Some)
  ultimately have "CHR ''A'' \<le> CHR ''@''" by (rule order_trans)
  then show ?thesis by (simp add: less_eq_char_def)
qed

lemma set_bit5_ge: "c \<le> set_bit5 c"
  by (cases c) (simp add: less_eq_char_def)

lemma is_upper_ge: "is_upper c \<Longrightarrow> CHR ''A'' \<le> c"
  by (auto simp add: is_upper_def less_eq_char_def)

lemma is_upper_lower_char: "is_upper c \<Longrightarrow> CHR ''A'' \<le> lower_char c"
  using is_upper_ge [of c] set_bit5_ge [of c] by (auto simp add: lower_char_def)

lemma not_upper_lower_char: "\<not> is_upper c \<Longrightarrow> lower_char c = c"
  by (simp add: lower_char_def)

lemma lower_char_small_letter: "CHR ''a'' \<le> v \<Longrightarrow> v \<le> CHR ''z'' \<Longrightarrow> lower_char v = v"
  by (auto simp add: lower_char_def is_upper_def less_eq_char_def)

lemma LEET_MAP_lower_char:
  assumes "LEET_MAP c = None"
  shows "LEET_MAP (lower_char c) = None"
proof (cases "is_upper c")
  case True
  then show ?thesis
    by (simp add: is_upper_lower_char LEET_MAP_above)
next
  case False
  with assms show ?thesis by (simp add: not_upper_lower_char)
qed

lemma LEET_MAP_output: "LEET_MAP (lower_char (leet_char c)) = None"
proof (cases "LEET_MAP c")
  case None
  then have "leet_char c = c" by (simp add: leet_char_def)
  with None show ?thesis by (simp add: LEET_MAP_lower_char)
next
  case (Some v)
  then have v: "CHR ''a'' \<le> v" "v \<le> CHR ''z''" by (simp_all add: LEET_MAP_Some)
  then have "lower_char v = v" by (rule lower_char_small_letter)
  moreover have "CHR ''A'' \<le> v" using v(1) by (auto simp add: less_eq_char_def)
  then have "LEET_MAP v = None" by (rule LEET_MAP_above)
  ultimately show ?thesis using Some by (simp add: leet_char_def)
qed

lemma leet_char_stable: "leet_char (lower_char (leet_char c)) = lower_char (leet_char c)"
  using LEET_MAP_output [of c] by (simp add: leet_char_def [of "lower_char (leet_char c)"])

lemma deleet_fixed: "deleet (Some (deleet s)) = deleet s"
proof (cases s)
  case None
  then show ?thesis by (simp add: deleet_def)
next
  case (Some t)
  have "lower (map leet_char (lower (map leet_char t))) = lower (map leet_char t)"
    by (simp add: lower_def leet_char_stable lower_char_idem)
  with Some show ?thesis by (simp add: deleet_def lower_def)
qed

text \<open>Claim C10: \<^verbatim>\<open>deleet\<close> is idempotent, for every string and for \<^verbatim>\<open>None\<close>, and no
  character that it produces (a value of the table, or a lower-cased character that the
  table passes through) is a key of the table.\<close>

theorem deleet_idempotent:
  "deleet (Some (deleet s)) = deleet s \<and> (\<forall>c. LEET_MAP (lower_char (leet_char c)) = None)"
  by (simp add: deleet_fixed LEET_MAP_output)

text \<open>Claim C3, as stated: \<^verbatim>\<open>deleet("1")\<close> and \<^verbatim>\<open>deleet("!")\<close> are both \<^verbatim>\<open>"l"\<close>. The
  table maps \<^verbatim>\<open>!\<close> to \<^verbatim>\<open>i\<close>, so the statement is false.\<close>

theorem deleet_bang_counterexample:
  "\<not> (deleet (Some ''1'') = ''l'' \<and> deleet (Some ''!'') = ''l'')"
  by (simp add: deleet_def leet_char_def LEET_MAP_def lower_def lower_char_def is_upper_def
      less_eq_char_def)

text \<open>Claim C3, amended: the table maps the character \<^verbatim>\<open>1\<close> to \<^verbatim>\<open>l\<close> and the character
  \<^verbatim>\<open>!\<close> to \<^verbatim>\<open>i\<close>; \<^verbatim>\<open>deleet("1")\<close> is \<^verbatim>\<open>"l"\<close> and \<^verbatim>\<open>deleet("!")\<close> is \<^verbatim>\<open>"i"\<close>.\<close>

theorem deleet_one_and_bang:
  "LEET_MAP (CHR ''1'') = Some (CHR ''l'') \<and> LEET_MAP (CHR ''!'') = Some (CHR ''i'')
   \<and> deleet (Some ''1'') = ''l'' \<and> deleet (Some ''!'') = ''i''"
  by (simp add: deleet_def leet_char_def LEET_MAP_def lower_def lower_char_def is_upper_def
      less_eq_char_def)

subsection \<open>The flags of a record\<close>

lemma split_acc_hd:
  "split_acc sep cur s \<noteq> [] \<and> hd (split_acc sep cur s) = cur @ takeWhile (\<lambda>c. c \<noteq> sep) s"
  by (induction s arbitrary: cur) auto

lemma index0_split: "index0 (split s sep) = Inr (takeWhile (\<lambda>c. c \<noteq> sep) s)"
  using split_acc_hd [of sep "[]" s] by (cases "split_acc sep [] s") (auto simp add: index0_def split_def)

lemma email_local_eq:
  "email_local em = Inr (if CHR ''@'' \<in> set em then takeWhile (\<lambda>c. c \<noteq> CHR ''@'') em else [])"
  by (simp add: email_local_def index0_split)

lemma token_loop_filter:
  "token_loop p ts (flag, matched) =
     (flag \<or> filter (\<lambda>t. t \<noteq> [] \<and> str_in t p) ts \<noteq> [],
      matched @ filter (\<lambda>t. t \<noteq> [] \<and> str_in t p) ts)"
  by (induction ts arbitrary: flag matched) auto

lemma str_in_sublist: "str_in t s \<longleftrightarrow> sublist t s"
  by (induction s) (simp_all add: sublist_Cons_right)

text \<open>Every flag of a record, in closed form: \<^verbatim>\<open>detect_relations\<close> raises nothing, and
  each key holds the value that the source assigns to it.\<close>

lemma detect_relations_flags:
  fixes r :: cred
  defines "u \<equiv> normalize_alnum (Some (or_empty (username r)))"
    and "e \<equiv> normalize_alnum (Some (or_empty (email r)))"
    and "p \<equiv> normalize_alnum (Some (or_empty (password r)))"
    and "loc \<equiv> (if CHR ''@'' \<in> set (or_empty (email r))
                  then takeWhile (\<lambda>c. c \<noteq> CHR ''@'') (or_empty (email r)) else [])"
    and "pd \<equiv> normalize_alnum (Some (deleet (Some (or_empty (password r)))))"
  defines "l \<equiv> normalize_alnum (Some loc)"
    and "tokens \<equiv> tokenize_name (Some (or_empty (username r))) @ tokenize_name (Some loc)"
  shows "\<exists>f. detect_relations r = Inr f
           \<and> f ''exact_username'' = Some (VBool (u \<noteq> [] \<and> p = u))
           \<and> f ''exact_email'' = Some (VBool (e \<noteq> [] \<and> p = e))
           \<and> f ''contains_username'' = Some (VBool (u \<noteq> [] \<and> str_in u p))
           \<and> f ''startswith_username'' = Some (VBool (u \<noteq> [] \<and> prefix u p))
           \<and> f ''endswith_username'' = Some (VBool (u \<noteq> [] \<and> suffix u p))
           \<and> f ''contains_localpart'' = Some (VBool (l \<noteq> [] \<and> str_in l p))
           \<and> f ''contains_token'' =
                 Some (VBool (filter (\<lambda>t. t \<noteq> [] \<and> str_in t p) tokens \<noteq> []))
           \<and> f ''matched_tokens'' = Some (VList (filter (\<lambda>t. t \<noteq> [] \<and> str_in t p) tokens))
           \<and> f ''reversed_username'' = Some (VBool (u \<noteq> [] \<and> str_in (rev u) p))
           \<and> f ''deleet_contains_username'' = Some (VBool (u \<noteq> [] \<and> str_in u pd))
           \<and> f ''deleet_contains_token'' =
                 Some (VBool (filter (\<lambda>t. t \<noteq> [] \<and> str_in t pd) tokens \<noteq> []))
           \<and> f ''matched_deleet_tokens'' =
                 Some (VList (filter (\<lambda>t. t \<noteq> [] \<and> str_in t pd) tokens))"
  unfolding detect_relations_def Let_def email_local_eq token_loop_filter u_def e_def p_def loc_def pd_def l_def tokens_def
  by simp

subsection \<open>Counting\<close>

lemma detect_relations_Inr: "\<exists>f. detect_relations r = Inr f"
  using detect_relations_flags [of r] by blast

lemma select_primary_find:
  "select_primary flags ks counts =
     (case find (\<lambda>k. truthy (flags k)) ks of
        None \<Rightarrow> (None, counts)
      | Some k \<Rightarrow> (Some k, counter_inc counts k))"
  by (induction ks) simp_all

lemma counter_get_inc:
  "counter_get (counter_inc c k) k' = (if k' = k then counter_get c k + 1 else counter_get c k')"
  by (simp add: counter_get_def counter_inc_def)

lemma counter_get_empty: "counter_get Map.empty k = 0"
  by (simp add: counter_get_def)

lemma sum_counter_get_empty: "sum_list (map (counter_get Map.empty) ks) = 0"
  by (induction ks) (simp_all add: counter_get_empty)

lemma sum_counter_inc_notin:
  "k \<notin> set ks \<Longrightarrow>
   sum_list (map (counter_get (counter_inc c k)) ks) = sum_list (map (counter_get c) ks)"
  by (induction ks) (auto simp add: counter_get_inc)

lemma sum_counter_inc_in:
  "distinct ks \<Longrightarrow> k \<in> set ks \<Longrightarrow>
   sum_list (map (counter_get (counter_inc c k)) ks) = sum_list (map (counter_get c) ks) + 1"
  by (induction ks) (auto simp add: counter_get_inc sum_counter_inc_notin)

lemma distinct_priority_keys: "distinct priority_keys"
  by (simp add: priority_keys_def)

lemma related_notin_priority_keys:
  "''related'' \<notin> set priority_keys" "''no_relation'' \<notin> set priority_keys"
  by (simp_all add: priority_keys_def)

lemma find_in_set: "find P ks = Some k \<Longrightarrow> k \<in> set ks"
  by (auto simp add: find_Some_iff)

lemma analyze_record_step:
  "\<exists>c' f. detect_relations rec = Inr f
     \<and> analyze_record rec (c, m) =
         Inr (c', m @ [(rec, find (\<lambda>k. truthy (f k)) priority_keys, f)])
     \<and> counter_get c' ''related'' + counter_get c' ''no_relation''
         = counter_get c ''related'' + counter_get c ''no_relation'' + 1
     \<and> sum_list (map (counter_get c') priority_keys) - counter_get c' ''related''
         = sum_list (map (counter_get c) priority_keys) - counter_get c ''related''"
proof -
  obtain f where f: "detect_relations rec = Inr f"
    using detect_relations_Inr by blast
  show ?thesis
  proof (cases "find (\<lambda>k. truthy (f k)) priority_keys")
    case None
    then show ?thesis
      using f related_notin_priority_keys
      by (simp add: analyze_record_def select_primary_find counter_get_inc sum_counter_inc_notin)
  next
    case (Some k)
    then have k: "k \<in> set priority_keys" by (rule find_in_set)
    then have "k \<noteq> ''related''" "k \<noteq> ''no_relation''"
      using related_notin_priority_keys by auto
    then show ?thesis
      using f Some k related_notin_priority_keys distinct_priority_keys
      by (simp add: analyze_record_def select_primary_find counter_get_inc
          sum_counter_inc_notin sum_counter_inc_in)
  qed
qed

lemma analyze_loop_counts:
  "\<exists>c' m'. analyze_loop recs (c, m) = Inr (c', m')
     \<and> counter_get c' ''related'' + counter_get c' ''no_relation''
         = counter_get c ''related'' + counter_get c ''no_relation'' + int (length recs)
     \<and> sum_list (map (counter_get c') priority_keys) - counter_get c' ''related''
         = sum_list (map (counter_get c) priority_keys) - counter_get c ''related''"
proof (induction recs arbitrary: c m)
  case Nil
  show ?case by simp
next
  case (Cons rec recs)
  obtain c1 m1 where step: "analyze_record rec (c, m) = Inr (c1, m1)"
    and s1: "counter_get c1 ''related'' + counter_get c1 ''no_relation''
         = counter_get c ''related'' + counter_get c ''no_relation'' + 1"
    and s2: "sum_list (map (counter_get c1) priority_keys) - counter_get c1 ''related''
         = sum_list (map (counter_get c) priority_keys) - counter_get c ''related''"
    using analyze_record_step [of rec c m] by blast
  obtain c' m' where loop: "analyze_loop recs (c1, m1) = Inr (c', m')"
    and l1: "counter_get c' ''related'' + counter_get c' ''no_relation''
         = counter_get c1 ''related'' + counter_get c1 ''no_relation'' + int (length recs)"
    and l2: "sum_list (map (counter_get c') priority_keys) - counter_get c' ''related''
         = sum_list (map (counter_get c1) priority_keys) - counter_get c1 ''related''"
    using Cons.IH [of c1 m1] by blast
  have "analyze_loop (rec # recs) (c, m) = Inr (c', m')"
    using step loop by simp
  moreover have "counter_get c' ''related'' + counter_get c' ''no_relation''
         = counter_get c ''related'' + counter_get c ''no_relation'' + int (length (rec # recs))"
    using s1 l1 by simp
  moreover have "sum_list (map (counter_get c') priority_keys) - counter_get c' ''related''
         = sum_list (map (counter_get c) priority_keys) - counter_get c ''related''"
    using s2 l2 by simp
  ultimately show ?case by blast
qed

lemma percentage_Inr:
  "percentage fdiv fmul cnt n =
     Inr (if n = 0 then PyInt 0 else PyFloat (fmul (fdiv cnt n) 100))"
  by (simp add: percentage_def truediv_def)

lemma primary_relation_find:
  "detect_relations rec = Inr f \<Longrightarrow>
   primary_relation rec = Inr (find (\<lambda>k. truthy (f k)) priority_keys)"
  using analyze_record_step [of rec Map.empty "[]"]
  by (auto simp add: primary_relation_def)

text \<open>One record adds one to \<^verbatim>\<open>related\<close> when its primary relation is a label and one to
  \<^verbatim>\<open>no_relation\<close> when it is \<^verbatim>\<open>None\<close>.\<close>

lemma analyze_record_related:
  "\<exists>c' m'. analyze_record rec (c, m) = Inr (c', m')
     \<and> counter_get c' ''related''
         = counter_get c ''related'' + (if primary_relation rec = Inr None then 0 else 1)
     \<and> counter_get c' ''no_relation''
         = counter_get c ''no_relation'' + (if primary_relation rec = Inr None then 1 else 0)"
proof -
  obtain f where f: "detect_relations rec = Inr f"
    using detect_relations_Inr by blast
  have p: "primary_relation rec = Inr (find (\<lambda>k. truthy (f k)) priority_keys)"
    using f by (rule primary_relation_find)
  show ?thesis
  proof (cases "find (\<lambda>k. truthy (f k)) priority_keys")
    case None
    then show ?thesis
      using f p by (simp add: analyze_record_def select_primary_find counter_get_inc)
  next
    case (Some k)
    then have "k \<in> set priority_keys" by (rule find_in_set)
    then have "k \<noteq> ''related''" "k \<noteq> ''no_relation''"
      using related_notin_priority_keys by auto
    then show ?thesis
      using f p Some by (simp add: analyze_record_def select_primary_find counter_get_inc)
  qed
qed

lemma analyze_loop_related:
  "\<exists>c' m'. analyze_loop recs (c, m) = Inr (c', m')
     \<and> counter_get c' ''related''
         = counter_get c ''related''
           + int (length (filter (\<lambda>r. primary_relation r \<noteq> Inr None) recs))
     \<and> counter_get c' ''no_relation''
         = counter_get c ''no_relation''
           + int (length (filter (\<lambda>r. primary_relation r = Inr None) recs))"
proof (induction recs arbitrary: c m)
  case Nil
  show ?case by simp
next
  case (Cons rec recs)
  obtain c1 m1 where step: "analyze_record rec (c, m) = Inr (c1, m1)"
    and s1: "counter_get c1 ''related''
         = counter_get c ''related'' + (if primary_relation rec = Inr None then 0 else 1)"
    and s2: "counter_get c1 ''no_relation''
         = counter_get c ''no_relation'' + (if primary_relation rec = Inr None then 1 else 0)"
    using analyze_record_related [of rec c m] by blast
  obtain c' m' where loop: "analyze_loop recs (c1, m1) = Inr (c', m')"
    and l1: "counter_get c' ''related''
         = counter_get c1 ''related''
           + int (length (filter (\<lambda>r. primary_relation r \<noteq> Inr None) recs))"
    and l2: "counter_get c' ''no_relation''
         = counter_get c1 ''no_relation''
           + int (length (filter (\<lambda>r. primary_relation r = Inr None) recs))"
    using Cons.IH [of c1 m1] by blast
  have "analyze_loop (rec # recs) (c, m) = Inr (c', m')"
    using step loop by simp
  moreover have "counter_get c' ''related''
         = counter_get c ''related''
           + int (length (filter (\<lambda>r. primary_relation r \<noteq> Inr None) (rec # recs)))"
    using s1 l1 by simp
  moreover have "counter_get c' ''no_relation''
         = counter_get c ''no_relation''
           + int (length (filter (\<lambda>r. primary_relation r = Inr None) (rec # recs)))"
    using s2 l2 by simp
  ultimately show ?case by blast
qed

text \<open>The state after line 230, and the result of the whole function, in closed form.\<close>

lemma analyze_ratios_result:
  "\<exists>counts matches. analyze_loop recs (Map.empty, []) = Inr (counts, matches)
     \<and> counter_get counts ''related''
         = int (length (filter (\<lambda>r. primary_relation r \<noteq> Inr None) recs))
     \<and> counter_get counts ''no_relation''
         = int (length (filter (\<lambda>r. primary_relation r = Inr None) recs))
     \<and> counter_get counts ''related'' + counter_get counts ''no_relation'' = int (length recs)
     \<and> sum_list (map (counter_get counts) priority_keys) = counter_get counts ''related''
     \<and> analyze_ratios fdiv fmul recs =
         Inr (int (length recs), counter_get counts ''related'',
              counter_get counts ''no_relation'',
              (if recs = [] then PyInt 0
               else PyFloat (fmul (fdiv (counter_get counts ''related'') (int (length recs))) 100)),
              (if recs = [] then PyInt 0
               else PyFloat
                  (fmul (fdiv (counter_get counts ''no_relation'') (int (length recs))) 100)),
              counts)"
proof -
  obtain counts matches where loop: "analyze_loop recs (Map.empty, []) = Inr (counts, matches)"
    and r: "counter_get counts ''related''
         = counter_get Map.empty ''related''
           + int (length (filter (\<lambda>r. primary_relation r \<noteq> Inr None) recs))"
    and n: "counter_get counts ''no_relation''
         = counter_get Map.empty ''no_relation''
           + int (length (filter (\<lambda>r. primary_relation r = Inr None) recs))"
    using analyze_loop_related [of recs Map.empty "[]"] by blast
  from analyze_loop_counts [of recs Map.empty "[]"] loop
  have a: "counter_get counts ''related'' + counter_get counts ''no_relation'' = int (length recs)"
    and b: "sum_list (map (counter_get counts) priority_keys) = counter_get counts ''related''"
    by (auto simp add: counter_get_empty sum_counter_get_empty)
  have "analyze_ratios fdiv fmul recs =
         Inr (int (length recs), counter_get counts ''related'',
              counter_get counts ''no_relation'',
              (if recs = [] then PyInt 0
               else PyFloat (fmul (fdiv (counter_get counts ''related'') (int (length recs))) 100)),
              (if recs = [] then PyInt 0
               else PyFloat
                  (fmul (fdiv (counter_get counts ''no_relation'') (int (length recs))) 100)),
              counts)"
    using loop by (simp add: analyze_ratios_def Let_def percentage_Inr)
  moreover have "counter_get counts ''related''
         = int (length (filter (\<lambda>r. primary_relation r \<noteq> Inr None) recs))"
    using r by (simp add: counter_get_empty)
  moreover have "counter_get counts ''no_relation''
         = int (length (filter (\<lambda>r. primary_relation r = Inr None) recs))"
    using n by (simp add: counter_get_empty)
  ultimately show ?thesis
    using loop a b by blast
qed

lemma plt_pie_counts:
  "0 \<le> a \<Longrightarrow> 0 \<le> b \<Longrightarrow>
   plt_pie [a, b] = (if a + b = 0 then Inl ValueError else Inr ())"
  by (simp add: plt_pie_def)

lemma analyze_relations_result:
  "\<exists>counts matches. analyze_loop recs (Map.empty, []) = Inr (counts, matches)
     \<and> counter_get counts ''related''
         = int (length (filter (\<lambda>r. primary_relation r \<noteq> Inr None) recs))
     \<and> counter_get counts ''no_relation''
         = int (length (filter (\<lambda>r. primary_relation r = Inr None) recs))
     \<and> counter_get counts ''related'' + counter_get counts ''no_relation'' = int (length recs)
     \<and> sum_list (map (counter_get counts) priority_keys) = counter_get counts ''related''
     \<and> analyze_relations fdiv fmul recs =
         (if recs = [] then Inl ValueError
          else Inr \<lparr>total = int (length recs),
              related = counter_get counts ''related'',
              no_relation = counter_get counts ''no_relation'',
              related_pct =
                PyFloat (fmul (fdiv (counter_get counts ''related'') (int (length recs))) 100),
              no_relation_pct =
                PyFloat (fmul (fdiv (counter_get counts ''no_relation'') (int (length recs))) 100),
              detail = map (\<lambda>k. (k, counter_get counts k)) priority_keys\<rparr>)"
proof -
  obtain counts matches where loop: "analyze_loop recs (Map.empty, []) = Inr (counts, matches)"
    and r: "counter_get counts ''related''
         = int (length (filter (\<lambda>r. primary_relation r \<noteq> Inr None) recs))"
    and n: "counter_get counts ''no_relation''
         = int (length (filter (\<lambda>r. primary_relation r = Inr None) recs))"
    and a: "counter_get counts ''related'' + counter_get counts ''no_relation''
         = int (length recs)"
    and b: "sum_list (map (counter_get counts) priority_keys) = counter_get counts ''related''"
    and ratios: "analyze_ratios fdiv fmul recs =
         Inr (int (length recs), counter_get counts ''related'',
              counter_get counts ''no_relation'',
              (if recs = [] then PyInt 0
               else PyFloat (fmul (fdiv (counter_get counts ''related'') (int (length recs))) 100)),
              (if recs = [] then PyInt 0
               else PyFloat
                  (fmul (fdiv (counter_get counts ''no_relation'') (int (length recs))) 100)),
              counts)"
    using analyze_ratios_result [of recs fdiv fmul] by blast
  have nonneg: "0 \<le> counter_get counts ''related''" "0 \<le> counter_get counts ''no_relation''"
    using r n by simp_all
  have pie: "plt_pie [counter_get counts ''related'', counter_get counts ''no_relation'']
      = (if recs = [] then Inl ValueError else Inr ())"
    using plt_pie_counts [OF nonneg] a by simp
  have "analyze_relations fdiv fmul recs =
         (if recs = [] then Inl ValueError
          else Inr \<lparr>total = int (length recs),
              related = counter_get counts ''related'',
              no_relation = counter_get counts ''no_relation'',
              related_pct =
                PyFloat (fmul (fdiv (counter_get counts ''related'') (int (length recs))) 100),
              no_relation_pct =
                PyFloat (fmul (fdiv (counter_get counts ''no_relation'') (int (length recs))) 100),
              detail = map (\<lambda>k. (k, counter_get counts k)) priority_keys\<rparr>)"
    by (simp add: analyze_relations_def Let_def ratios pie)
  then show ?thesis
    using loop r n a b by blast
qed

text \<open>Claim C4: whenever \<^verbatim>\<open>analyze_relations\<close> returns a summary, \<^verbatim>\<open>related + no_relation\<close>
  is the number of records and the counts of the eight labels in \<^verbatim>\<open>detail\<close> add up to
  \<^verbatim>\<open>related\<close>. A summary is returned for every list of records that is not empty; for the
  empty list the chart raises \<^verbatim>\<open>ValueError\<close> and there is no summary.\<close>

theorem summary_counts_add_up:
  "(analyze_relations fdiv fmul recs = Inr s \<longrightarrow>
      total s = int (length recs)
      \<and> related s + no_relation s = total s
      \<and> sum_list (map snd (detail s)) = related s
      \<and> map fst (detail s) = priority_keys)
   \<and> (recs \<noteq> [] \<longrightarrow> (\<exists>s'. analyze_relations fdiv fmul recs = Inr s'))
   \<and> (recs = [] \<longrightarrow> analyze_relations fdiv fmul recs = Inl ValueError)"
proof -
  obtain counts matches where
    a: "counter_get counts ''related'' + counter_get counts ''no_relation'' = int (length recs)"
    and b: "sum_list (map (counter_get counts) priority_keys) = counter_get counts ''related''"
    and res: "analyze_relations fdiv fmul recs =
         (if recs = [] then Inl ValueError
          else Inr \<lparr>total = int (length recs),
              related = counter_get counts ''related'',
              no_relation = counter_get counts ''no_relation'',
              related_pct =
                PyFloat (fmul (fdiv (counter_get counts ''related'') (int (length recs))) 100),
              no_relation_pct =
                PyFloat (fmul (fdiv (counter_get counts ''no_relation'') (int (length recs))) 100),
              detail = map (\<lambda>k. (k, counter_get counts k)) priority_keys\<rparr>)"
    using analyze_relations_result [of recs fdiv fmul] by blast
  have "total s = int (length recs)
      \<and> related s + no_relation s = total s
      \<and> sum_list (map snd (detail s)) = related s
      \<and> map fst (detail s) = priority_keys"
    if "analyze_relations fdiv fmul recs = Inr s"
  proof (cases "recs = []")
    case True
    with res that show ?thesis by simp
  next
    case False
    with res that have "s = \<lparr>total = int (length recs),
              related = counter_get counts ''related'',
              no_relation = counter_get counts ''no_relation'',
              related_pct =
                PyFloat (fmul (fdiv (counter_get counts ''related'') (int (length recs))) 100),
              no_relation_pct =
                PyFloat (fmul (fdiv (counter_get counts ''no_relation'') (int (length recs))) 100),
              detail = map (\<lambda>k. (k, counter_get counts k)) priority_keys\<rparr>"
      by simp
    then show ?thesis
      using a b by (simp add: comp_def)
  qed
  moreover have "\<exists>s'. analyze_relations fdiv fmul recs = Inr s'" if "recs \<noteq> []"
    using res that by simp
  moreover have "analyze_relations fdiv fmul recs = Inl ValueError" if "recs = []"
    using res that by simp
  ultimately show ?thesis by blast
qed

text \<open>Claim C4 at the three records of the specification's end-to-end example
  (\<^verbatim>\<open>bob\<close>, \<^verbatim>\<open>carol\<close>, \<^verbatim>\<open>dave\<close>), with a float modelled as the exact fraction
  (numerator, denominator): a summary is returned, of three records.\<close>

theorem summary_counts_add_up_witness:
  "\<exists>s. analyze_relations (\<lambda>a b. (a, b)) (\<lambda>q n. (fst q * n, snd q))
          [\<lparr>username = Some ''bob'', email = Some '''', password = Some ''bob123''\<rparr>,
           \<lparr>username = Some ''carol'', email = Some ''carol@x.com'', password = Some ''carol''\<rparr>,
           \<lparr>username = Some ''dave'', email = Some '''', password = Some ''xyz999''\<rparr>] = Inr s
     \<and> total s = 3
     \<and> related s + no_relation s = total s
     \<and> sum_list (map snd (detail s)) = related s
     \<and> map fst (detail s) = priority_keys"
proof -
  let ?recs = "[\<lparr>username = Some ''bob'', email = Some '''', password = Some ''bob123''\<rparr>,
           \<lparr>username = Some ''carol'', email = Some ''carol@x.com'', password = Some ''carol''\<rparr>,
           \<lparr>username = Some ''dave'', email = Some '''', password = Some ''xyz999''\<rparr>]"
  let ?fdiv = "\<lambda>a b. (a, b) :: int \<times> int"
  let ?fmul = "\<lambda>(q :: int \<times> int) n. (fst q * n, snd q)"
  have ne: "?recs \<noteq> []" by simp
  obtain s where s: "analyze_relations ?fdiv ?fmul ?recs = Inr s"
    using ne summary_counts_add_up [of ?fdiv ?fmul ?recs] by blast
  then have "total s = int (length ?recs)
      \<and> related s + no_relation s = total s
      \<and> sum_list (map snd (detail s)) = related s
      \<and> map fst (detail s) = priority_keys"
    using summary_counts_add_up [of ?fdiv ?fmul ?recs s] by blast
  with s show ?thesis by auto
qed

text \<open>Claim C6: the two percentages are \<^verbatim>\<open>count / total * 100\<close>, where \<^verbatim>\<open>total\<close> is the
  number of records, \<^verbatim>\<open>related\<close> the number of records with a primary relation and
  \<^verbatim>\<open>no_relation\<close> the number of records without one. For the empty list of records both
  percentages are computed as 0; a true division by 0 raises \<^verbatim>\<open>ZeroDivisionError\<close>, and no
  list of records makes \<^verbatim>\<open>analyze_relations\<close> raise it. (For the empty list the chart
  raises \<^verbatim>\<open>ValueError\<close> afterwards.)\<close>

theorem percentages_guarded:
  "\<exists>counts.
     analyze_ratios fdiv fmul recs =
       Inr (int (length recs),
            int (length (filter (\<lambda>r. primary_relation r \<noteq> Inr None) recs)),
            int (length (filter (\<lambda>r. primary_relation r = Inr None) recs)),
            (if recs = [] then PyInt 0
             else PyFloat
               (fmul (fdiv (int (length (filter (\<lambda>r. primary_relation r \<noteq> Inr None) recs)))
                           (int (length recs))) 100)),
            (if recs = [] then PyInt 0
             else PyFloat
               (fmul (fdiv (int (length (filter (\<lambda>r. primary_relation r = Inr None) recs)))
                           (int (length recs))) 100)),
            counts)
     \<and> analyze_relations fdiv fmul recs =
         (if recs = [] then Inl ValueError
          else Inr \<lparr>total = int (length recs),
              related = int (length (filter (\<lambda>r. primary_relation r \<noteq> Inr None) recs)),
              no_relation = int (length (filter (\<lambda>r. primary_relation r = Inr None) recs)),
              related_pct = PyFloat
               (fmul (fdiv (int (length (filter (\<lambda>r. primary_relation r \<noteq> Inr None) recs)))
                           (int (length recs))) 100),
              no_relation_pct = PyFloat
               (fmul (fdiv (int (length (filter (\<lambda>r. primary_relation r = Inr None) recs)))
                           (int (length recs))) 100),
              detail = map (\<lambda>k. (k, counter_get counts k)) priority_keys\<rparr>)
     \<and> analyze_relations fdiv fmul recs \<noteq> Inl ZeroDivisionError
     \<and> analyze_ratios fdiv fmul [] = Inr (0, 0, 0, PyInt 0, PyInt 0, Map.empty)
     \<and> truediv fdiv (int (length (filter (\<lambda>r. primary_relation r \<noteq> Inr None) recs))) 0
         = Inl ZeroDivisionError"
proof -
  obtain counts matches where
    r: "counter_get counts ''related''
         = int (length (filter (\<lambda>r. primary_relation r \<noteq> Inr None) recs))"
    and n: "counter_get counts ''no_relation''
         = int (length (filter (\<lambda>r. primary_relation r = Inr None) recs))"
    and res: "analyze_relations fdiv fmul recs =
         (if recs = [] then Inl ValueError
          else Inr \<lparr>total = int (length recs),
              related = counter_get counts ''related'',
              no_relation = counter_get counts ''no_relation'',
              related_pct =
                PyFloat (fmul (fdiv (counter_get counts ''related'') (int (length recs))) 100),
              no_relation_pct =
                PyFloat (fmul (fdiv (counter_get counts ''no_relation'') (int (length recs))) 100),
              detail = map (\<lambda>k. (k, counter_get counts k)) priority_keys\<rparr>)"
    and loop: "analyze_loop recs (Map.empty, []) = Inr (counts, matches)"
    using analyze_relations_result [of recs fdiv fmul] by blast
  have ratios: "analyze_ratios fdiv fmul recs =
         Inr (int (length recs), counter_get counts ''related'',
              counter_get counts ''no_relation'',
              (if recs = [] then PyInt 0
               else PyFloat (fmul (fdiv (counter_get counts ''related'') (int (length recs))) 100)),
              (if recs = [] then PyInt 0
               else PyFloat
                  (fmul (fdiv (counter_get counts ''no_relation'') (int (length recs))) 100)),
              counts)"
    using loop by (simp add: analyze_ratios_def Let_def percentage_Inr)
  have empty: "analyze_ratios fdiv fmul [] = Inr (0, 0, 0, PyInt 0, PyInt 0, Map.empty)"
    by (simp add: analyze_ratios_def percentage_def counter_get_empty)
  have nz: "analyze_relations fdiv fmul recs \<noteq> Inl ZeroDivisionError"
    using res by simp
  have zd: "truediv fdiv (int (length (filter (\<lambda>r. primary_relation r \<noteq> Inr None) recs))) 0
         = Inl ZeroDivisionError"
    by (simp add: truediv_def)
  show ?thesis
    apply (rule exI [of _ counts])
    apply (intro conjI)
        apply (rule ratios [unfolded r n])
       apply (rule res [unfolded r n])
      apply (rule nz)
     apply (rule empty)
    apply (rule zd)
    done
qed

subsection \<open>Empty normal forms\<close>

lemma upper_set_bit5:
  assumes "CHR ''A'' \<le> c" "c \<le> CHR ''Z''"
  shows "CHR ''a'' \<le> set_bit5 c \<and> set_bit5 c \<le> CHR ''z''"
  using assms by (cases c) (auto simp add: less_eq_char_def of_bool_def split: if_splits)

lemma is_alnum_lower_char: 
  assumes "is_alnum c"
  shows "is_lower_alnum (lower_char c)"
proof (cases "CHR ''A'' \<le> c \<and> c \<le> CHR ''Z''")
  case True
  then have "is_upper c" by (simp add: is_upper_def)
  with True show ?thesis
    using upper_set_bit5 [of c] by (simp add: lower_char_def is_lower_alnum_def)
next
  case False
  with assms have "is_lower_alnum c" by (auto simp add: is_alnum_def is_lower_alnum_def)
  then show ?thesis by (simp add: lower_char_lower_alnum)
qed

lemma normalize_alnum_empty_iff:
  "normalize_alnum (Some s) = [] \<longleftrightarrow> (\<forall>c\<in>set s. \<not> is_lower_alnum (lower_char c))"
  by (simp add: normalize_alnum_def lower_def filter_empty_conv)

lemma normalize_alnum_empty_no_alnum:
  "normalize_alnum (Some s) = [] \<Longrightarrow> \<forall>c\<in>set s. \<not> is_alnum c"
  using is_alnum_lower_char by (auto simp add: normalize_alnum_empty_iff)

lemma normalize_alnum_takeWhile_empty:
  "normalize_alnum (Some s) = [] \<Longrightarrow> normalize_alnum (Some (takeWhile P s)) = []"
  by (auto simp add: normalize_alnum_empty_iff dest: set_takeWhileD)

lemma re_split_acc_no_alnum:
  "\<forall>c\<in>set s. \<not> is_alnum c \<Longrightarrow> set (re_split_acc cur insep s) \<subseteq> {cur, []}"
  by (induction s arbitrary: cur insep) (auto split: if_splits)

lemma set_strip: "set (strip s) \<subseteq> set s"
  by (auto simp add: strip_def dest!: set_dropWhileD)

lemma tokenize_name_no_alnum:
  assumes "\<forall>c\<in>set s. \<not> is_alnum c"
  shows "tokenize_name (Some s) = []"
proof -
  have "\<forall>c\<in>set (strip s). \<not> is_alnum c"
    using assms set_strip [of s] by auto
  then have "set (re_split_acc [] False (strip s)) \<subseteq> {[], []}"
    by (rule re_split_acc_no_alnum)
  then have "filter (\<lambda>p. length p \<ge> 3) (re_split_acc [] False (strip s)) = []"
    by (auto simp add: filter_empty_conv)
  then show ?thesis
    by (simp add: tokenize_name_def re_split_nonalnum_def)
qed

lemma str_in_refl: "str_in t t"
  by (cases t) simp_all

subsection \<open>The primary relation\<close>

lemma flag_value_Inr: "detect_relations r = Inr f \<Longrightarrow> flag_value r k = Inr (f k)"
  by (simp add: flag_value_def)

lemma username_flag_values:
  fixes r :: cred
  defines "u \<equiv> normalize_alnum (Some (or_empty (username r)))"
    and "e \<equiv> normalize_alnum (Some (or_empty (email r)))"
    and "p \<equiv> normalize_alnum (Some (or_empty (password r)))"
    and "pd \<equiv> normalize_alnum (Some (deleet (Some (or_empty (password r)))))"
  shows "flag_value r ''exact_username'' = Inr (Some (VBool (u \<noteq> [] \<and> p = u)))"
    and "flag_value r ''exact_email'' = Inr (Some (VBool (e \<noteq> [] \<and> p = e)))"
    and "flag_value r ''contains_username'' = Inr (Some (VBool (u \<noteq> [] \<and> str_in u p)))"
    and "flag_value r ''startswith_username'' = Inr (Some (VBool (u \<noteq> [] \<and> prefix u p)))"
    and "flag_value r ''endswith_username'' = Inr (Some (VBool (u \<noteq> [] \<and> suffix u p)))"
    and "flag_value r ''reversed_username'' = Inr (Some (VBool (u \<noteq> [] \<and> str_in (rev u) p)))"
    and "flag_value r ''deleet_contains_username'' = Inr (Some (VBool (u \<noteq> [] \<and> str_in u pd)))"
  unfolding u_def e_def p_def pd_def
  using detect_relations_flags [of r] by (auto simp add: flag_value_def)

lemma priority_flags_truthy:
  assumes "detect_relations r = Inr f"
  shows "truthy (f ''exact_username'') = (f ''exact_username'' = Some (VBool True))"
    and "truthy (f ''exact_email'') = (f ''exact_email'' = Some (VBool True))"
    and "truthy (f ''contains_username'') = (f ''contains_username'' = Some (VBool True))"
    and "truthy (f ''contains_localpart'') = (f ''contains_localpart'' = Some (VBool True))"
    and "truthy (f ''contains_token'') = (f ''contains_token'' = Some (VBool True))"
    and "truthy (f ''deleet_contains_username'') = (f ''deleet_contains_username'' = Some (VBool True))"
    and "truthy (f ''deleet_contains_token'') = (f ''deleet_contains_token'' = Some (VBool True))"
    and "truthy (f ''reversed_username'') = (f ''reversed_username'' = Some (VBool True))"
  using detect_relations_flags [of r] assms by (auto simp add: truthy_def)

text \<open>Claim C1: for every record the loop body of \<^verbatim>\<open>analyze_relations\<close> stores as
  \<^verbatim>\<open>primary\<close> the first key, in the order \<^verbatim>\<open>exact_username\<close>, \<^verbatim>\<open>exact_email\<close>,
  \<^verbatim>\<open>contains_username\<close>, \<^verbatim>\<open>contains_localpart\<close>, \<^verbatim>\<open>contains_token\<close>,
  \<^verbatim>\<open>deleet_contains_username\<close>, \<^verbatim>\<open>deleet_contains_token\<close>, \<^verbatim>\<open>reversed_username\<close>, whose flag
  is true, and \<^verbatim>\<open>None\<close> when none of the eight is true. It is never \<^verbatim>\<open>startswith_username\<close>
  or \<^verbatim>\<open>endswith_username\<close>, so every record gets one label among the eight and \<^verbatim>\<open>None\<close>.\<close>

theorem primary_first_true:
  "\<exists>flags counts' primary.
     detect_relations rec = Inr flags
     \<and> analyze_record rec (counts, matches) = Inr (counts', matches @ [(rec, primary, flags)])
     \<and> primary_relation rec = Inr primary
     \<and> primary =
        (if flags ''exact_username'' = Some (VBool True) then Some ''exact_username''
         else if flags ''exact_email'' = Some (VBool True) then Some ''exact_email''
         else if flags ''contains_username'' = Some (VBool True) then Some ''contains_username''
         else if flags ''contains_localpart'' = Some (VBool True) then Some ''contains_localpart''
         else if flags ''contains_token'' = Some (VBool True) then Some ''contains_token''
         else if flags ''deleet_contains_username'' = Some (VBool True)
           then Some ''deleet_contains_username''
         else if flags ''deleet_contains_token'' = Some (VBool True)
           then Some ''deleet_contains_token''
         else if flags ''reversed_username'' = Some (VBool True) then Some ''reversed_username''
         else None)
     \<and> primary \<in> {None, Some ''exact_username'', Some ''exact_email'',
           Some ''contains_username'', Some ''contains_localpart'', Some ''contains_token'',
           Some ''deleet_contains_username'', Some ''deleet_contains_token'',
           Some ''reversed_username''}
     \<and> primary \<noteq> Some ''startswith_username''
     \<and> primary \<noteq> Some ''endswith_username''"
proof -
  obtain c' f where f: "detect_relations rec = Inr f"
    and step: "analyze_record rec (counts, matches) =
        Inr (c', matches @ [(rec, find (\<lambda>k. truthy (f k)) priority_keys, f)])"
    using analyze_record_step [of rec counts matches] by blast
  let ?p = "find (\<lambda>k. truthy (f k)) priority_keys"
  have prim: "primary_relation rec = Inr ?p"
    using f by (rule primary_relation_find)
  have chain: "?p =
        (if f ''exact_username'' = Some (VBool True) then Some ''exact_username''
         else if f ''exact_email'' = Some (VBool True) then Some ''exact_email''
         else if f ''contains_username'' = Some (VBool True) then Some ''contains_username''
         else if f ''contains_localpart'' = Some (VBool True) then Some ''contains_localpart''
         else if f ''contains_token'' = Some (VBool True) then Some ''contains_token''
         else if f ''deleet_contains_username'' = Some (VBool True)
           then Some ''deleet_contains_username''
         else if f ''deleet_contains_token'' = Some (VBool True)
           then Some ''deleet_contains_token''
         else if f ''reversed_username'' = Some (VBool True) then Some ''reversed_username''
         else None)"
    by (simp add: priority_keys_def priority_flags_truthy [OF f])
  have mem: "?p \<in> {None, Some ''exact_username'', Some ''exact_email'',
           Some ''contains_username'', Some ''contains_localpart'', Some ''contains_token'',
           Some ''deleet_contains_username'', Some ''deleet_contains_token'',
           Some ''reversed_username''}"
    unfolding chain by simp
  have ne1: "?p \<noteq> Some ''startswith_username''"
    unfolding chain by simp
  have ne2: "?p \<noteq> Some ''endswith_username''"
    unfolding chain by simp
  show ?thesis
    apply (rule exI [of _ f])
    apply (rule exI [of _ c'])
    apply (rule exI [of _ ?p])
    apply (intro conjI)
          apply (fact f)
         apply (fact step)
        apply (fact prim)
       apply (fact chain)
      apply (fact mem)
     apply (fact ne1)
    apply (fact ne2)
    done
qed

text \<open>Claim C7: for every record, when \<^verbatim>\<open>exact_username\<close> is true then
  \<^verbatim>\<open>contains_username\<close> is true, and when \<^verbatim>\<open>exact_username\<close> and \<^verbatim>\<open>exact_email\<close> are both
  true the primary relation is \<^verbatim>\<open>exact_username\<close>.\<close>

theorem exact_username_dominates:
  "(flag_value rec ''exact_username'' = Inr (Some (VBool True))
      \<longrightarrow> flag_value rec ''contains_username'' = Inr (Some (VBool True)))
   \<and> (flag_value rec ''exact_username'' = Inr (Some (VBool True))
        \<and> flag_value rec ''exact_email'' = Inr (Some (VBool True))
      \<longrightarrow> primary_relation rec = Inr (Some ''exact_username''))"
proof -
  obtain f where f: "detect_relations rec = Inr f"
    using detect_relations_Inr by blast
  have "primary_relation rec = Inr (Some ''exact_username'')"
    if "flag_value rec ''exact_username'' = Inr (Some (VBool True))"
  proof -
    from that f have "truthy (f ''exact_username'')"
      by (simp add: flag_value_def truthy_def)
    then have "find (\<lambda>k. truthy (f k)) priority_keys = Some ''exact_username''"
      by (simp add: priority_keys_def)
    then show ?thesis
      using primary_relation_find [OF f] by simp
  qed
  moreover have "flag_value rec ''contains_username'' = Inr (Some (VBool True))"
    if "flag_value rec ''exact_username'' = Inr (Some (VBool True))"
    using that by (auto simp add: username_flag_values str_in_refl)
  ultimately show ?thesis by blast
qed

text \<open>Claim C7 at the record with username \<^verbatim>\<open>"ab"\<close>, email \<^verbatim>\<open>"a@b"\<close> and password
  \<^verbatim>\<open>"AB"\<close>, where both exact flags are true.\<close>

theorem exact_username_dominates_witness:
  "flag_value \<lparr>username = Some ''ab'', email = Some ''a@b'', password = Some ''AB''\<rparr>
       ''exact_username'' = Inr (Some (VBool True))
   \<and> flag_value \<lparr>username = Some ''ab'', email = Some ''a@b'', password = Some ''AB''\<rparr>
       ''exact_email'' = Inr (Some (VBool True))
   \<and> flag_value \<lparr>username = Some ''ab'', email = Some ''a@b'', password = Some ''AB''\<rparr>
       ''contains_username'' = Inr (Some (VBool True))
   \<and> primary_relation \<lparr>username = Some ''ab'', email = Some ''a@b'', password = Some ''AB''\<rparr>
       = Inr (Some ''exact_username'')"
proof -
  let ?r = "\<lparr>username = Some ''ab'', email = Some ''a@b'', password = Some ''AB''\<rparr>"
  have h1: "flag_value ?r ''exact_username'' = Inr (Some (VBool True))"
    by code_simp
  have h2: "flag_value ?r ''exact_email'' = Inr (Some (VBool True))"
    by code_simp
  show ?thesis
    using h1 h2 exact_username_dominates [of ?r] by simp
qed

subsection \<open>Empty and token-free identities\<close>

lemma localpart_flag_value:
  assumes "normalize_alnum (Some (or_empty (email r))) = []"
  shows "flag_value r ''contains_localpart'' = Inr (Some (VBool False))"
proof -
  have "normalize_alnum (Some (takeWhile (\<lambda>c. c \<noteq> CHR ''@'') (or_empty (email r)))) = []"
    using assms by (rule normalize_alnum_takeWhile_empty)
  moreover have "normalize_alnum (Some []) = []"
    by (simp add: normalize_alnum_def lower_def)
  ultimately show ?thesis
    using detect_relations_flags [of r] by (auto simp add: flag_value_def)
qed

lemma token_pool_empty:
  assumes "normalize_alnum (Some (or_empty (username r))) = []"
    and "normalize_alnum (Some (or_empty (email r))) = []"
  shows "tokenize_name (Some (or_empty (username r)))
           @ tokenize_name (Some (if CHR ''@'' \<in> set (or_empty (email r))
                  then takeWhile (\<lambda>c. c \<noteq> CHR ''@'') (or_empty (email r)) else [])) = []"
proof -
  have "tokenize_name (Some (or_empty (username r))) = []"
    using assms(1) by (intro tokenize_name_no_alnum normalize_alnum_empty_no_alnum)
  moreover have "tokenize_name (Some (takeWhile (\<lambda>c. c \<noteq> CHR ''@'') (or_empty (email r)))) = []"
  proof -
    have "normalize_alnum (Some (takeWhile (\<lambda>c. c \<noteq> CHR ''@'') (or_empty (email r)))) = []"
      using assms(2) by (rule normalize_alnum_takeWhile_empty)
    then have "\<forall>c\<in>set (takeWhile (\<lambda>c. c \<noteq> CHR ''@'') (or_empty (email r))). \<not> is_alnum c"
      by (rule normalize_alnum_empty_no_alnum)
    then show ?thesis by (rule tokenize_name_no_alnum)
  qed
  moreover have "tokenize_name (Some []) = []"
    by (simp add: tokenize_name_def)
  ultimately show ?thesis by simp
qed

lemma token_flag_values:
  assumes "normalize_alnum (Some (or_empty (username r))) = []"
    and "normalize_alnum (Some (or_empty (email r))) = []"
  shows "flag_value r ''contains_token'' = Inr (Some (VBool False))"
    and "flag_value r ''matched_tokens'' = Inr (Some (VList []))"
    and "flag_value r ''deleet_contains_token'' = Inr (Some (VBool False))"
    and "flag_value r ''matched_deleet_tokens'' = Inr (Some (VList []))"
  using detect_relations_flags [of r] token_pool_empty [OF assms]
  by (auto simp add: flag_value_def)

lemma localpart_flag_value_local:
  assumes "email_local (or_empty (email r)) = Inr loc"
    and "normalize_alnum (Some loc) = []"
  shows "flag_value r ''contains_localpart'' = Inr (Some (VBool False))"
proof -
  from assms(1) have loc: "loc = (if CHR ''@'' \<in> set (or_empty (email r))
                  then takeWhile (\<lambda>c. c \<noteq> CHR ''@'') (or_empty (email r)) else [])"
    by (simp add: email_local_eq)
  show ?thesis
    using detect_relations_flags [of r] assms(2) unfolding loc
    by (auto simp add: flag_value_def)
qed

lemma token_flag_values_local:
  assumes "normalize_alnum (Some (or_empty (username r))) = []"
    and "email_local (or_empty (email r)) = Inr loc"
    and "normalize_alnum (Some loc) = []"
  shows "flag_value r ''contains_token'' = Inr (Some (VBool False))"
    and "flag_value r ''matched_tokens'' = Inr (Some (VList []))"
    and "flag_value r ''deleet_contains_token'' = Inr (Some (VBool False))"
    and "flag_value r ''matched_deleet_tokens'' = Inr (Some (VList []))"
proof -
  from assms(2) have loc: "loc = (if CHR ''@'' \<in> set (or_empty (email r))
                  then takeWhile (\<lambda>c. c \<noteq> CHR ''@'') (or_empty (email r)) else [])"
    by (simp add: email_local_eq)
  have tu: "tokenize_name (Some (or_empty (username r))) = []"
    using assms(1) by (intro tokenize_name_no_alnum normalize_alnum_empty_no_alnum)
  have tl: "tokenize_name (Some loc) = []"
    using assms(3) by (intro tokenize_name_no_alnum normalize_alnum_empty_no_alnum)
  have pool: "tokenize_name (Some (or_empty (username r)))
           @ tokenize_name (Some (if CHR ''@'' \<in> set (or_empty (email r))
                  then takeWhile (\<lambda>c. c \<noteq> CHR ''@'') (or_empty (email r)) else [])) = []"
    using tu tl unfolding loc by simp
  show "flag_value r ''contains_token'' = Inr (Some (VBool False))"
    and "flag_value r ''matched_tokens'' = Inr (Some (VList []))"
    and "flag_value r ''deleet_contains_token'' = Inr (Some (VBool False))"
    and "flag_value r ''matched_deleet_tokens'' = Inr (Some (VList []))"
    using detect_relations_flags [of r] pool by (auto simp add: flag_value_def)
qed

lemma primary_relation_None:
  assumes "flag_value r ''exact_username'' = Inr (Some (VBool False))"
    and "flag_value r ''exact_email'' = Inr (Some (VBool False))"
    and "flag_value r ''contains_username'' = Inr (Some (VBool False))"
    and "flag_value r ''contains_localpart'' = Inr (Some (VBool False))"
    and "flag_value r ''contains_token'' = Inr (Some (VBool False))"
    and "flag_value r ''deleet_contains_username'' = Inr (Some (VBool False))"
    and "flag_value r ''deleet_contains_token'' = Inr (Some (VBool False))"
    and "flag_value r ''reversed_username'' = Inr (Some (VBool False))"
  shows "primary_relation r = Inr None"
proof -
  obtain f where f: "detect_relations r = Inr f"
    using detect_relations_Inr by blast
  have "find (\<lambda>k. truthy (f k)) priority_keys = None"
    using assms f by (simp add: flag_value_def priority_keys_def truthy_def)
  then show ?thesis
    using primary_relation_find [OF f] by simp
qed

text \<open>Claim C5: \<^verbatim>\<open>detect_relations\<close> raises no error on any record, and an identity string
  whose normal form is empty never matches, whatever the password is. When the normalised
  username is empty, the six flags that read it are false; when the normalised email is
  empty, \<^verbatim>\<open>exact_email\<close> and \<^verbatim>\<open>contains_localpart\<close> are false; when the normalised local part
  of the email is empty, \<^verbatim>\<open>contains_localpart\<close> is false, also under an email that is not
  empty; when the normalised username and local part are empty, the two token flags are
  false and no token is matched; when the normalised username and email are empty, the
  primary relation is \<^verbatim>\<open>None\<close>.\<close>

theorem empty_identity_never_matches:
  "(\<exists>f. detect_relations rec = Inr f)
   \<and> (normalize_alnum (Some (or_empty (username rec))) = [] \<longrightarrow>
        flag_value rec ''exact_username'' = Inr (Some (VBool False))
        \<and> flag_value rec ''contains_username'' = Inr (Some (VBool False))
        \<and> flag_value rec ''startswith_username'' = Inr (Some (VBool False))
        \<and> flag_value rec ''endswith_username'' = Inr (Some (VBool False))
        \<and> flag_value rec ''reversed_username'' = Inr (Some (VBool False))
        \<and> flag_value rec ''deleet_contains_username'' = Inr (Some (VBool False)))
   \<and> (normalize_alnum (Some (or_empty (email rec))) = [] \<longrightarrow>
        flag_value rec ''exact_email'' = Inr (Some (VBool False))
        \<and> flag_value rec ''contains_localpart'' = Inr (Some (VBool False)))
   \<and> (\<forall>loc. email_local (or_empty (email rec)) = Inr loc
          \<and> normalize_alnum (Some loc) = [] \<longrightarrow>
        flag_value rec ''contains_localpart'' = Inr (Some (VBool False)))
   \<and> (\<forall>loc. normalize_alnum (Some (or_empty (username rec))) = []
          \<and> email_local (or_empty (email rec)) = Inr loc
          \<and> normalize_alnum (Some loc) = [] \<longrightarrow>
        flag_value rec ''contains_token'' = Inr (Some (VBool False))
        \<and> flag_value rec ''matched_tokens'' = Inr (Some (VList []))
        \<and> flag_value rec ''deleet_contains_token'' = Inr (Some (VBool False))
        \<and> flag_value rec ''matched_deleet_tokens'' = Inr (Some (VList [])))
   \<and> (normalize_alnum (Some (or_empty (username rec))) = []
        \<and> normalize_alnum (Some (or_empty (email rec))) = [] \<longrightarrow>
        flag_value rec ''contains_token'' = Inr (Some (VBool False))
        \<and> flag_value rec ''matched_tokens'' = Inr (Some (VList []))
        \<and> flag_value rec ''deleet_contains_token'' = Inr (Some (VBool False))
        \<and> flag_value rec ''matched_deleet_tokens'' = Inr (Some (VList []))
        \<and> primary_relation rec = Inr None)"
proof -
  have u: "flag_value rec ''exact_username'' = Inr (Some (VBool False))
        \<and> flag_value rec ''contains_username'' = Inr (Some (VBool False))
        \<and> flag_value rec ''startswith_username'' = Inr (Some (VBool False))
        \<and> flag_value rec ''endswith_username'' = Inr (Some (VBool False))
        \<and> flag_value rec ''reversed_username'' = Inr (Some (VBool False))
        \<and> flag_value rec ''deleet_contains_username'' = Inr (Some (VBool False))"
    if "normalize_alnum (Some (or_empty (username rec))) = []"
    using that by (simp add: username_flag_values)
  have e: "flag_value rec ''exact_email'' = Inr (Some (VBool False))
        \<and> flag_value rec ''contains_localpart'' = Inr (Some (VBool False))"
    if "normalize_alnum (Some (or_empty (email rec))) = []"
    using that by (simp add: username_flag_values localpart_flag_value)
  have l: "flag_value rec ''contains_localpart'' = Inr (Some (VBool False))"
    if "email_local (or_empty (email rec)) = Inr loc \<and> normalize_alnum (Some loc) = []"
    for loc
    using that localpart_flag_value_local [of rec loc] by blast
  have tl: "flag_value rec ''contains_token'' = Inr (Some (VBool False))
        \<and> flag_value rec ''matched_tokens'' = Inr (Some (VList []))
        \<and> flag_value rec ''deleet_contains_token'' = Inr (Some (VBool False))
        \<and> flag_value rec ''matched_deleet_tokens'' = Inr (Some (VList []))"
    if "normalize_alnum (Some (or_empty (username rec))) = []
          \<and> email_local (or_empty (email rec)) = Inr loc
          \<and> normalize_alnum (Some loc) = []"
    for loc
    using that token_flag_values_local [of rec loc] by blast
  have t: "flag_value rec ''contains_token'' = Inr (Some (VBool False))
        \<and> flag_value rec ''matched_tokens'' = Inr (Some (VList []))
        \<and> flag_value rec ''deleet_contains_token'' = Inr (Some (VBool False))
        \<and> flag_value rec ''matched_deleet_tokens'' = Inr (Some (VList []))
        \<and> primary_relation rec = Inr None"
    if un: "normalize_alnum (Some (or_empty (username rec))) = []"
      and en: "normalize_alnum (Some (or_empty (email rec))) = []"
  proof -
    note tk = token_flag_values [OF un en]
    have "primary_relation rec = Inr None"
      using u [OF un] e [OF en] tk by (intro primary_relation_None) simp_all
    with tk show ?thesis by simp
  qed
  show ?thesis
    apply (intro conjI allI impI)
    subgoal by (rule detect_relations_Inr)
    subgoal using u by blast
    subgoal using u by blast
    subgoal using u by blast
    subgoal using u by blast
    subgoal using u by blast
    subgoal using u by blast
    subgoal using e by blast
    subgoal using e by blast
    subgoal for loc using l [of loc] by blast
    subgoal for loc using tl [of loc] by blast
    subgoal for loc using tl [of loc] by blast
    subgoal for loc using tl [of loc] by blast
    subgoal for loc using tl [of loc] by blast
    subgoal using t by blast
    subgoal using t by blast
    subgoal using t by blast
    subgoal using t by blast
    subgoal using t by blast
    done
qed

text \<open>Claim C5 at the record whose username, email and password are the empty string:
  every flag is false and the primary relation is \<^verbatim>\<open>None\<close>; and at the record with email
  \<^verbatim>\<open>"@x.com"\<close> and password \<^verbatim>\<open>"hunter2"\<close>, whose local part is empty under an email that is
  not: \<^verbatim>\<open>contains_localpart\<close> is false.\<close>

theorem empty_identity_never_matches_witness:
  "flag_value \<lparr>username = Some '''', email = Some '''', password = Some ''''\<rparr>
       ''exact_username'' = Inr (Some (VBool False))
   \<and> flag_value \<lparr>username = Some '''', email = Some '''', password = Some ''''\<rparr>
       ''exact_email'' = Inr (Some (VBool False))
   \<and> flag_value \<lparr>username = Some '''', email = Some '''', password = Some ''''\<rparr>
       ''contains_username'' = Inr (Some (VBool False))
   \<and> flag_value \<lparr>username = Some '''', email = Some '''', password = Some ''''\<rparr>
       ''startswith_username'' = Inr (Some (VBool False))
   \<and> flag_value \<lparr>username = Some '''', email = Some '''', password = Some ''''\<rparr>
       ''endswith_username'' = Inr (Some (VBool False))
   \<and> flag_value \<lparr>username = Some '''', email = Some '''', password = Some ''''\<rparr>
       ''contains_localpart'' = Inr (Some (VBool False))
   \<and> flag_value \<lparr>username = Some '''', email = Some '''', password = Some ''''\<rparr>
       ''contains_token'' = Inr (Some (VBool False))
   \<and> flag_value \<lparr>username = Some '''', email = Some '''', password = Some ''''\<rparr>
       ''reversed_username'' = Inr (Some (VBool False))
   \<and> flag_value \<lparr>username = Some '''', email = Some '''', password = Some ''''\<rparr>
       ''deleet_contains_username'' = Inr (Some (VBool False))
   \<and> flag_value \<lparr>username = Some '''', email = Some '''', password = Some ''''\<rparr>
       ''deleet_contains_token'' = Inr (Some (VBool False))
   \<and> primary_relation \<lparr>username = Some '''', email = Some '''', password = Some ''''\<rparr>
       = Inr None
   \<and> email_local ''@x.com'' = Inr ''''
   \<and> flag_value \<lparr>username = Some '''', email = Some ''@x.com'', password = Some ''hunter2''\<rparr>
       ''contains_localpart'' = Inr (Some (VBool False))
   \<and> flag_value \<lparr>username = Some '''', email = Some ''@x.com'', password = Some ''hunter2''\<rparr>
       ''contains_token'' = Inr (Some (VBool False))"
proof -
  let ?r = "\<lparr>username = Some '''', email = Some '''', password = Some ''''\<rparr>"
  let ?q = "\<lparr>username = Some '''', email = Some ''@x.com'', password = Some ''hunter2''\<rparr>"
  have un: "normalize_alnum (Some (or_empty (username ?r))) = []"
    by (simp add: normalize_alnum_def or_empty_def lower_def)
  have en: "normalize_alnum (Some (or_empty (email ?r))) = []"
    by (simp add: normalize_alnum_def or_empty_def lower_def)
  have qu: "normalize_alnum (Some (or_empty (username ?q))) = []"
    by (simp add: normalize_alnum_def or_empty_def lower_def)
  have ql: "email_local ''@x.com'' = Inr ''''"
    by (simp add: email_local_eq)
  then have ql': "email_local (or_empty (email ?q)) = Inr ''''"
    by (simp add: or_empty_def)
  have qn: "normalize_alnum (Some '''') = []"
    by (simp add: normalize_alnum_def lower_def)
  have a: "flag_value ?r ''exact_username'' = Inr (Some (VBool False))
        \<and> flag_value ?r ''contains_username'' = Inr (Some (VBool False))
        \<and> flag_value ?r ''startswith_username'' = Inr (Some (VBool False))
        \<and> flag_value ?r ''endswith_username'' = Inr (Some (VBool False))
        \<and> flag_value ?r ''reversed_username'' = Inr (Some (VBool False))
        \<and> flag_value ?r ''deleet_contains_username'' = Inr (Some (VBool False))"
    using un empty_identity_never_matches [of ?r] by blast
  have b: "flag_value ?r ''exact_email'' = Inr (Some (VBool False))
        \<and> flag_value ?r ''contains_localpart'' = Inr (Some (VBool False))"
    using en empty_identity_never_matches [of ?r] by blast
  have c: "flag_value ?r ''contains_token'' = Inr (Some (VBool False))
        \<and> flag_value ?r ''deleet_contains_token'' = Inr (Some (VBool False))
        \<and> primary_relation ?r = Inr None"
    using un en empty_identity_never_matches [of ?r] by blast
  have d: "flag_value ?q ''contains_localpart'' = Inr (Some (VBool False))"
    using ql' qn empty_identity_never_matches [of ?q] by blast
  have e: "flag_value ?q ''contains_token'' = Inr (Some (VBool False))"
    using qu ql' qn empty_identity_never_matches [of ?q] by blast
  show ?thesis
    using a b c d e ql by blast
qed



text \<open>Claim C2, as stated: for username \<^verbatim>\<open>"john.smith99"\<close>, empty email and password
  \<^verbatim>\<open>"smith2024"\<close> the token pool has \<^verbatim>\<open>"john"\<close> and \<^verbatim>\<open>"smith"\<close> and not \<^verbatim>\<open>"99"\<close>, and
  \<^verbatim>\<open>contains_token\<close> is true with the matched token \<^verbatim>\<open>"smith"\<close>. Digits do not separate
  tokens, so the second token is \<^verbatim>\<open>"smith99"\<close> and the statement is false.\<close>

theorem token_pool_counterexample:
  "\<not> (''john'' \<in> set (tokenize_name (Some ''john.smith99'') @ tokenize_name (Some ''''))
      \<and> ''smith'' \<in> set (tokenize_name (Some ''john.smith99'') @ tokenize_name (Some ''''))
      \<and> ''99'' \<notin> set (tokenize_name (Some ''john.smith99'') @ tokenize_name (Some ''''))
      \<and> flag_value \<lparr>username = Some ''john.smith99'', email = Some '''',
                     password = Some ''smith2024''\<rparr> ''contains_token''
          = Inr (Some (VBool True))
      \<and> flag_value \<lparr>username = Some ''john.smith99'', email = Some '''',
                     password = Some ''smith2024''\<rparr> ''matched_tokens''
          = Inr (Some (VList [''smith''])))"
proof -
  have "tokenize_name (Some ''john.smith99'') @ tokenize_name (Some '''')
          = [''john'', ''smith99'']"
    by code_simp
  then show ?thesis by simp
qed

text \<open>Claim C2, amended: for that record the local part of the email is empty, the token
  pool is \<^verbatim>\<open>["john", "smith99"]\<close>, \<^verbatim>\<open>contains_token\<close> is false and no token is matched.\<close>

theorem token_pool_john_smith99:
  "email_local '''' = Inr ''''
   \<and> tokenize_name (Some ''john.smith99'') @ tokenize_name (Some '''') = [''john'', ''smith99'']
   \<and> flag_value \<lparr>username = Some ''john.smith99'', email = Some '''',
                  password = Some ''smith2024''\<rparr> ''contains_token''
       = Inr (Some (VBool False))
   \<and> flag_value \<lparr>username = Some ''john.smith99'', email = Some '''',
                  password = Some ''smith2024''\<rparr> ''matched_tokens''
       = Inr (Some (VList []))"
  by code_simp

end
